theory Spec2Isabelle
  imports Main "HOL-Library.Sublist"
begin

section \<open>Data model of server.js\<close>

text \<open>
  The emergency-room scheduler of \<^verbatim>\<open>server.js\<close>: the patient records, the counted
  resource pool, the priority-ordered waiting queue, the ready queue and the doctor
  workers. JavaScript numbers are modelled as \<^typ>\<open>int\<close> (the program only counts and
  compares; fractional numbers and NaN are outside this model, except where
  \<^verbatim>\<open>parseInt\<close> can produce NaN, which is \<^const>\<open>None\<close>). Strings are \<^typ>\<open>string\<close>,
  the status of a patient is the string the program stores.
\<close>

record patient =
  patientId :: int
  name :: string
  age :: int
  complaint :: string
  severity :: int
  status :: string
  assignedBed :: int
  requiresVentilator :: bool
  assignedVentilator :: int
  enqueuedSequence :: int
  registrationTime :: string
  treatmentDurationMs :: int
  prescription :: string

text \<open>The object \<^verbatim>\<open>Resources\<close>: four counters.\<close>

record resources =
  totalBeds :: int
  usedBeds :: int
  totalVentilators :: int
  usedVentilators :: int

text \<open>
  An entry of \<^verbatim>\<open>waitingQueue\<close> is \<^verbatim>\<open>{ patient: p, sequence: p.enqueuedSequence }\<close>.
  In the program \<^verbatim>\<open>p\<close> is the very object stored in \<^verbatim>\<open>patientRecords\<close>. Through a queue
  entry the program reads only \<^verbatim>\<open>id\<close>, \<^verbatim>\<open>severity\<close> and \<^verbatim>\<open>requiresVentilator\<close>, and no
  statement assigns these three fields after the object is built, so the entry carries the
  patient as registered.
\<close>

record waiting =
  patient :: patient
  sequence :: int

text \<open>
  The module-level variables. \<^verbatim>\<open>activeTreatmentTimers\<close> maps a patient id to its pending
  timeout; its key set is what the model keeps.
\<close>

record state =
  Resources :: resources
  patientRecords :: "int \<rightharpoonup> patient"
  waitingQueue :: "waiting list"
  readyQueue :: "int list"
  systemRunning :: bool
  numberOfDoctors :: int
  sequenceCounter :: int
  nextPatientId :: int
  activeTreatmentTimers :: "int set"

text \<open>What \<^verbatim>\<open>registerPatient\<close> receives, after the coercions \<^verbatim>\<open>String\<close>, \<^verbatim>\<open>Number\<close> and
  \<^verbatim>\<open>!!\<close>, together with the clock reading of \<^verbatim>\<open>getCurrentTimestamp()\<close>.\<close>

record attrs =
  attrName :: string
  attrAge :: int
  attrComplaint :: string
  attrSeverity :: int
  attrRequiresVentilator :: bool
  attrTimestamp :: string

section \<open>Configuration and pure helpers\<close>

definition CRITICAL_TREATMENT_MS :: int where
  "CRITICAL_TREATMENT_MS = 45000"

definition SERIOUS_TREATMENT_MS :: int where
  "SERIOUS_TREATMENT_MS = 40000"

definition NORMAL_TREATMENT_MS :: int where
  "NORMAL_TREATMENT_MS = 35000"

definition severityToString :: "int \<Rightarrow> string" where
  "severityToString sev =
     (if sev \<ge> 3 then ''CRITICAL'' else if sev = 2 then ''SERIOUS'' else ''NORMAL'')"

definition intToSeverity :: "int \<Rightarrow> int" where
  "intToSeverity x = (if x \<ge> 3 then 3 else if x = 2 then 2 else 1)"

definition severityTreatmentMs :: "int \<Rightarrow> int" where
  "severityTreatmentMs sev =
     (if sev \<ge> 3 then CRITICAL_TREATMENT_MS
      else if sev = 2 then SERIOUS_TREATMENT_MS
      else NORMAL_TREATMENT_MS)"

definition generatePrescription :: "patient \<Rightarrow> string" where
  "generatePrescription p =
     (let base =
        (if severity p \<ge> 3 then ''ICU Medications + Broad-Spectrum Antibiotics''
         else if severity p = 2 then ''Analgesics + Continuous Monitoring''
         else ''Rest + Paracetamol 500mg'')
      in if requiresVentilator p then base @ '' | Ventilator Support Required'' else base)"

section \<open>The resource pool\<close>

definition initialResources :: resources where
  "initialResources =
     \<lparr>totalBeds = 0, usedBeds = 0, totalVentilators = 0, usedVentilators = 0\<rparr>"

definition setTotals :: "int \<Rightarrow> int \<Rightarrow> resources \<Rightarrow> resources" where
  "setTotals beds vents r =
     r\<lparr>totalBeds := beds,
       totalVentilators := vents,
       usedBeds := min (usedBeds r) beds,
       usedVentilators := min (usedVentilators r) vents\<rparr>"

text \<open>Allocation returns the pool and the handle; the handle \<open>-1\<close> means failure.\<close>

definition allocateBed :: "resources \<Rightarrow> resources \<times> int" where
  "allocateBed r =
     (if usedBeds r < totalBeds r
      then (r\<lparr>usedBeds := usedBeds r + 1\<rparr>, usedBeds r + 1)
      else (r, -1))"

definition releaseBed :: "int \<Rightarrow> resources \<Rightarrow> resources" where
  "releaseBed idx r = (if usedBeds r > 0 then r\<lparr>usedBeds := usedBeds r - 1\<rparr> else r)"

definition allocateVentilator :: "resources \<Rightarrow> resources \<times> int" where
  "allocateVentilator r =
     (if usedVentilators r < totalVentilators r
      then (r\<lparr>usedVentilators := usedVentilators r + 1\<rparr>, usedVentilators r + 1)
      else (r, -1))"

definition releaseVentilator :: "int \<Rightarrow> resources \<Rightarrow> resources" where
  "releaseVentilator idx r =
     (if usedVentilators r > 0 then r\<lparr>usedVentilators := usedVentilators r - 1\<rparr> else r)"

definition availableBeds :: "resources \<Rightarrow> int" where
  "availableBeds r = totalBeds r - usedBeds r"

definition availableVentilators :: "resources \<Rightarrow> int" where
  "availableVentilators r = totalVentilators r - usedVentilators r"

text \<open>A call on the pool, and the pool after a sequence of calls.\<close>

datatype poolCall =
  AllocateBed | ReleaseBed int | AllocateVentilator | ReleaseVentilator int | SetTotals int int

fun poolStep :: "resources \<Rightarrow> poolCall \<Rightarrow> resources" where
  "poolStep r AllocateBed = fst (allocateBed r)"
| "poolStep r (ReleaseBed idx) = releaseBed idx r"
| "poolStep r AllocateVentilator = fst (allocateVentilator r)"
| "poolStep r (ReleaseVentilator idx) = releaseVentilator idx r"
| "poolStep r (SetTotals beds vents) = setTotals beds vents r"

definition poolRun :: "poolCall list \<Rightarrow> resources \<Rightarrow> resources" where
  "poolRun calls r = foldl poolStep r calls"

section \<open>The waiting queue and the allocation pass\<close>

text \<open>The comparator handed to \<^verbatim>\<open>waitingQueue.sort\<close>.\<close>

definition compareWaiting :: "waiting \<Rightarrow> waiting \<Rightarrow> int" where
  "compareWaiting a b =
     (if severity (patient a) \<noteq> severity (patient b)
      then severity (patient b) - severity (patient a)
      else sequence a - sequence b)"

text \<open>
  \<^verbatim>\<open>Array.prototype.sort\<close> is a stable sort by the comparator: \<open>a\<close> stays before \<open>b\<close>
  unless the comparator is positive. Stable insertion sort computes it.
\<close>

fun arrayInsert :: "('a \<Rightarrow> 'a \<Rightarrow> int) \<Rightarrow> 'a \<Rightarrow> 'a list \<Rightarrow> 'a list" where
  "arrayInsert cmp x [] = [x]"
| "arrayInsert cmp x (y # ys) =
     (if cmp x y \<le> 0 then x # y # ys else y # arrayInsert cmp x ys)"

definition arraySort :: "('a \<Rightarrow> 'a \<Rightarrow> int) \<Rightarrow> 'a list \<Rightarrow> 'a list" where
  "arraySort cmp xs = foldr (arrayInsert cmp) xs []"

definition sortWaitingQueue :: "state \<Rightarrow> state" where
  "sortWaitingQueue s = s\<lparr>waitingQueue := arraySort compareWaiting (waitingQueue s)\<rparr>"

text \<open>Lines 246 to 254: the record of the admitted patient and the ready queue.\<close>

definition markAllocated :: "patient \<Rightarrow> int \<Rightarrow> int \<Rightarrow> state \<Rightarrow> state" where
  "markAllocated p bedIndex ventIndex s =
     (let recs =
        (case patientRecords s (patientId p) of
           None \<Rightarrow> patientRecords s
         | Some r \<Rightarrow>
             (patientRecords s)(patientId p \<mapsto>
               r\<lparr>assignedBed := bedIndex, assignedVentilator := ventIndex,
                 status := ''Allocated''\<rparr>))
      in s\<lparr>patientRecords := recs, readyQueue := readyQueue s @ [patientId p]\<rparr>)"

text \<open>
  The \<^verbatim>\<open>while\<close> loop of \<^verbatim>\<open>tryAllocateResources\<close>, with the flag \<^verbatim>\<open>progressed\<close>. Each
  \<^verbatim>\<open>break\<close> returns; the loop goes round only after the front entry has left the queue.
\<close>

function tryAllocateLoop :: "state \<Rightarrow> bool \<Rightarrow> state \<times> bool" where
  "tryAllocateLoop s progressed =
     (case waitingQueue s of
        [] \<Rightarrow> (s, progressed)
      | topw # rest \<Rightarrow>
          (case allocateBed (Resources s) of
             (r1, bedIndex) \<Rightarrow>
               if bedIndex = -1 then (s\<lparr>Resources := r1\<rparr>, progressed)
               else if requiresVentilator (patient topw) then
                 (case allocateVentilator r1 of
                    (r2, ventIndex) \<Rightarrow>
                      if ventIndex = -1
                      then (s\<lparr>Resources := releaseBed bedIndex r2,
                              waitingQueue := topw # rest\<rparr>, progressed)
                      else tryAllocateLoop
                             (markAllocated (patient topw) bedIndex ventIndex
                                (s\<lparr>Resources := r2, waitingQueue := rest\<rparr>)) True)
               else tryAllocateLoop
                      (markAllocated (patient topw) bedIndex (-1)
                         (s\<lparr>Resources := r1, waitingQueue := rest\<rparr>)) True))"
  by pat_completeness auto
termination
  by (relation "measure (\<lambda>(s, progressed). length (waitingQueue s))")
     (auto simp: markAllocated_def Let_def)

text \<open>The file written when \<^verbatim>\<open>progressed\<close> holds is never read back while the server
  runs, so the pass is its effect on the state.\<close>

definition tryAllocateResources :: "state \<Rightarrow> state" where
  "tryAllocateResources s = fst (tryAllocateLoop s False)"

section \<open>Registration, discharge, configuration\<close>

definition initialState :: state where
  "initialState =
     \<lparr>Resources = initialResources, patientRecords = Map.empty, waitingQueue = [],
      readyQueue = [], systemRunning = False, numberOfDoctors = 0, sequenceCounter = 0,
      nextPatientId = 1, activeTreatmentTimers = {}\<rparr>"

text \<open>\<^verbatim>\<open>Number(severity || 1)\<close>: the falsy number 0 becomes 1.\<close>

definition newPatient :: "attrs \<Rightarrow> state \<Rightarrow> patient" where
  "newPatient a s =
     \<lparr>patientId = nextPatientId s,
      name = attrName a,
      age = attrAge a,
      complaint = attrComplaint a,
      severity = intToSeverity (if attrSeverity a = 0 then 1 else attrSeverity a),
      status = ''Waiting'',
      assignedBed = -1,
      requiresVentilator = attrRequiresVentilator a,
      assignedVentilator = -1,
      enqueuedSequence = sequenceCounter s,
      registrationTime = attrTimestamp a,
      treatmentDurationMs =
        severityTreatmentMs (intToSeverity (if attrSeverity a = 0 then 1 else attrSeverity a)),
      prescription = ''''\<rparr>"

text \<open>\<^verbatim>\<open>registerPatient\<close>; its return value is the stored record of the new id, read off
  the state it leaves.\<close>

definition registerPatient :: "attrs \<Rightarrow> state \<Rightarrow> state" where
  "registerPatient a s =
     (let p = newPatient a s;
          s1 = s\<lparr>nextPatientId := nextPatientId s + 1,
                 sequenceCounter := sequenceCounter s + 1,
                 patientRecords := (patientRecords s)(patientId p \<mapsto> p),
                 waitingQueue := waitingQueue s @ [\<lparr>patient = p, sequence = enqueuedSequence p\<rparr>]\<rparr>
      in tryAllocateResources (sortWaitingQueue s1))"

text \<open>Lines 300 to 307 and, word for word, 401 to 408: give back what the record holds.\<close>

definition releaseHeld :: "patient \<Rightarrow> resources \<Rightarrow> patient \<times> resources" where
  "releaseHeld p r =
     (let (p1, r1) =
        (if assignedBed p \<noteq> -1
         then (p\<lparr>assignedBed := -1\<rparr>, releaseBed (assignedBed p) r) else (p, r))
      in if assignedVentilator p1 \<noteq> -1
         then (p1\<lparr>assignedVentilator := -1\<rparr>, releaseVentilator (assignedVentilator p1) r1)
         else (p1, r1))"

definition dischargePatient :: "int \<Rightarrow> state \<Rightarrow> bool \<times> state" where
  "dischargePatient i s =
     (case patientRecords s i of
        None \<Rightarrow> (False, s)
      | Some p \<Rightarrow>
          (case releaseHeld p (Resources s) of
             (p1, r1) \<Rightarrow>
               (True,
                tryAllocateResources
                  (s\<lparr>Resources := r1,
                     patientRecords := (patientRecords s)(i \<mapsto> p1\<lparr>status := ''Discharged''\<rparr>)\<rparr>))))"

text \<open>The handler of \<^verbatim>\<open>POST /api/resources/configure\<close>.\<close>

definition configure :: "int \<Rightarrow> int \<Rightarrow> int \<Rightarrow> state \<Rightarrow> state" where
  "configure b v d s = s\<lparr>Resources := setTotals b v (Resources s), numberOfDoctors := d\<rparr>"

text \<open>
  The handler of \<^verbatim>\<open>GET /api/queue/position/:id\<close>: it sorts the queue in place and
  answers with the index of the first entry of that id, or \<open>-1\<close>.
\<close>

definition queuePosition :: "int \<Rightarrow> state \<Rightarrow> (bool \<times> int) \<times> state" where
  "queuePosition i s =
     (let s1 = sortWaitingQueue s;
          ids = map (patientId \<circ> patient) (waitingQueue s1)
      in ((if i \<in> set ids then (True, int (length (takeWhile (\<lambda>j. j \<noteq> i) ids)))
           else (False, -1)),
          s1))"

section \<open>Doctor workers\<close>

definition startDoctorWorkers :: "state \<Rightarrow> state" where
  "startDoctorWorkers s = (if systemRunning s then s else s\<lparr>systemRunning := True\<rparr>)"

definition stopDoctorWorkers :: "state \<Rightarrow> state" where
  "stopDoctorWorkers s =
     (if \<not> systemRunning s then s
      else s\<lparr>systemRunning := False, activeTreatmentTimers := {}\<rparr>)"

text \<open>
  One round of a doctor's loop up to its \<^verbatim>\<open>await\<close>: take the front of the ready queue; an
  empty queue or a falsy id sends the worker round again; an id with a record goes into
  treatment and its timer is set.
\<close>

definition doctorPickup :: "state \<Rightarrow> state" where
  "doctorPickup s =
     (if \<not> systemRunning s then s
      else case readyQueue s of
        [] \<Rightarrow> s
      | pid # rest \<Rightarrow>
          (let s1 = s\<lparr>readyQueue := rest\<rparr>
           in if pid = 0 then s1
              else case patientRecords s1 pid of
                None \<Rightarrow> s1
              | Some p \<Rightarrow>
                  s1\<lparr>patientRecords := (patientRecords s1)(pid \<mapsto> p\<lparr>status := ''In-Treatment''\<rparr>),
                     activeTreatmentTimers := insert pid (activeTreatmentTimers s1)\<rparr>))"

text \<open>The timeout callback of patient \<open>pid\<close>: prescription, discharge, release, cascade.\<close>

definition treatmentTimeout :: "int \<Rightarrow> state \<Rightarrow> state" where
  "treatmentTimeout pid s =
     (let s1 =
        (case patientRecords s pid of
           None \<Rightarrow> s
         | Some r \<Rightarrow>
             (case releaseHeld
                     (r\<lparr>prescription := generatePrescription r, status := ''Discharged''\<rparr>)
                     (Resources s) of
                (r1, res1) \<Rightarrow>
                  tryAllocateResources
                    (s\<lparr>Resources := res1, patientRecords := (patientRecords s)(pid \<mapsto> r1)\<rparr>)))
      in s1\<lparr>activeTreatmentTimers := activeTreatmentTimers s1 - {pid}\<rparr>)"

section \<open>Runs of the server\<close>

text \<open>
  JavaScript runs each handler, each round of a worker and each timeout callback to its
  end before the next one starts, so a run of the server is a sequence of these units,
  starting from the state of a first start (no saved files). The handlers that only read
  the state are left out. A timeout fires only while its timer is pending. The model does
  not count the workers: any number of pick-ups may follow each other while the system
  runs, so every run of the program is a run of the model.
\<close>

datatype event =
  Register attrs
| Discharge int
| Configure int int int
| QueuePosition int
| StartWorkers
| StopWorkers
| WorkerPickup
| TreatmentDone int

fun step :: "state \<Rightarrow> event \<Rightarrow> state" where
  "step s (Register a) = registerPatient a s"
| "step s (Discharge i) = snd (dischargePatient i s)"
| "step s (Configure b v d) = configure b v d s"
| "step s (QueuePosition i) = snd (queuePosition i s)"
| "step s StartWorkers = startDoctorWorkers s"
| "step s StopWorkers = stopDoctorWorkers s"
| "step s WorkerPickup = doctorPickup s"
| "step s (TreatmentDone pid) =
     (if pid \<in> activeTreatmentTimers s then treatmentTimeout pid s else s)"

definition run :: "event list \<Rightarrow> state" where
  "run evs = foldl step initialState evs"

section \<open>CSV persistence of a patient record\<close>

text \<open>Characters the reader and the writer look at.\<close>

definition dquote :: char where
  "dquote = CHR 0x22"

definition comma :: char where
  "comma = CHR '',''"

text \<open>\<^verbatim>\<open>String(s).replace(/"/g, '""')\<close>: every double quote is doubled.\<close>

fun escapeCSV :: "string \<Rightarrow> string" where
  "escapeCSV [] = []"
| "escapeCSV (c # cs) =
     (if c = dquote then dquote # dquote # escapeCSV cs else c # escapeCSV cs)"

text \<open>\<^verbatim>\<open>String(s).replace(/""/g, '"')\<close>: from the left, each pair of double quotes becomes
  one.\<close>

fun unescapeCSV :: "string \<Rightarrow> string" where
  "unescapeCSV [] = []"
| "unescapeCSV [c] = [c]"
| "unescapeCSV (c # d # cs) =
     (if c = dquote \<and> d = dquote then dquote # unescapeCSV cs
      else c # unescapeCSV (d # cs))"

text \<open>\<^verbatim>\<open>String(n)\<close> of an integer: decimal digits, a minus sign when negative.\<close>

definition digitChar :: "int \<Rightarrow> char" where
  "digitChar d = ''0123456789'' ! nat d"

function digitsToString :: "int \<Rightarrow> string" where
  "digitsToString n =
     (if n < 10 then [digitChar n] else digitsToString (n div 10) @ [digitChar (n mod 10)])"
  by pat_completeness auto
termination
  by (relation "measure nat") auto

definition numberToString :: "int \<Rightarrow> string" where
  "numberToString n = (if n < 0 then CHR ''-'' # digitsToString (- n) else digitsToString n)"

text \<open>
  \<^verbatim>\<open>parseInt(s, 10)\<close>: leading white space is skipped, one sign is read, then the longest
  run of decimal digits; with no digit the result is NaN, here \<^const>\<open>None\<close>.
\<close>

definition isWhiteSpace :: "char \<Rightarrow> bool" where
  "isWhiteSpace c = (c \<in> set [CHR 0x20, CHR 0x09, CHR 0x0A, CHR 0x0B, CHR 0x0C, CHR 0x0D])"

definition isDigit :: "char \<Rightarrow> bool" where
  "isDigit c = (c \<in> set ''0123456789'')"

definition digitValue :: "char \<Rightarrow> int" where
  "digitValue c = of_char c - 48"

definition parseInt :: "string \<Rightarrow> int option" where
  "parseInt s =
     (let s1 = dropWhile isWhiteSpace s;
          neg = (case s1 of c # _ \<Rightarrow> c = CHR ''-'' | [] \<Rightarrow> False);
          s2 = (case s1 of c # cs \<Rightarrow> if c = CHR ''-'' \<or> c = CHR ''+'' then cs else s1 | [] \<Rightarrow> s1);
          ds = takeWhile isDigit s2
      in if ds = [] then None
         else Some ((if neg then -1 else 1) * foldl (\<lambda>a c. 10 * a + digitValue c) 0 ds))"

text \<open>\<^verbatim>\<open>Array.prototype.join\<close> with a separator.\<close>

fun joinWith :: "string \<Rightarrow> string list \<Rightarrow> string" where
  "joinWith sep [] = []"
| "joinWith sep [x] = x"
| "joinWith sep (x # y # ys) = x @ sep @ joinWith sep (y # ys)"

definition quoted :: "string \<Rightarrow> string" where
  "quoted s = dquote # s @ [dquote]"

definition patientToCSV :: "patient \<Rightarrow> string" where
  "patientToCSV p =
     joinWith '',''
       [numberToString (patientId p),
        quoted (escapeCSV (name p)),
        numberToString (age p),
        quoted (escapeCSV (complaint p)),
        numberToString (severity p),
        status p,
        numberToString (assignedBed p),
        (if requiresVentilator p then ''1'' else ''0''),
        numberToString (assignedVentilator p),
        numberToString (enqueuedSequence p),
        quoted (registrationTime p),
        numberToString (treatmentDurationMs p),
        quoted (escapeCSV (prescription p))]"

text \<open>
  The loop of \<^verbatim>\<open>parseCSVLine\<close> over the characters still to read, with \<^verbatim>\<open>cur\<close>,
  \<^verbatim>\<open>inQuotes\<close> and \<^verbatim>\<open>out\<close>. A quote inside quotes followed by a quote is one quote
  character and both are consumed.
\<close>

fun parseCSVLoop :: "string \<Rightarrow> string \<Rightarrow> bool \<Rightarrow> string list \<Rightarrow> string list" where
  "parseCSVLoop [] cur inQuotes out = out @ [cur]"
| "parseCSVLoop (c # cs) cur inQuotes out =
     (if c = dquote then
        (if \<not> inQuotes then parseCSVLoop cs cur True out
         else (case cs of
                 d # ds \<Rightarrow>
                   if d = dquote then parseCSVLoop ds (cur @ [dquote]) inQuotes out
                   else parseCSVLoop cs cur False out
               | [] \<Rightarrow> parseCSVLoop cs cur False out))
      else if c = comma \<and> \<not> inQuotes then parseCSVLoop cs [] inQuotes (out @ [cur])
      else parseCSVLoop cs (cur @ [c]) inQuotes out)"

definition parseCSVLine :: "string \<Rightarrow> string list" where
  "parseCSVLine line = parseCSVLoop line [] False []"

text \<open>
  \<^verbatim>\<open>intToSeverity\<close> and the test \<^verbatim>\<open>!== 0\<close> applied to what \<^verbatim>\<open>parseInt\<close> returned: NaN is
  neither \<open>\<ge> 3\<close> nor \<open>2\<close>, and differs from 0.
\<close>

definition intToSeverityParsed :: "int option \<Rightarrow> int" where
  "intToSeverityParsed x = (case x of None \<Rightarrow> 1 | Some n \<Rightarrow> intToSeverity n)"

definition nonZeroParsed :: "int option \<Rightarrow> bool" where
  "nonZeroParsed x = (case x of None \<Rightarrow> True | Some n \<Rightarrow> n \<noteq> 0)"

text \<open>
  The result of \<^verbatim>\<open>patientFromCSVLine\<close>: \<^verbatim>\<open>null\<close> for a short line, else the record. A
  record one of whose numbers is NaN has no counterpart in \<^typ>\<open>patient\<close> and is reported
  as such.
\<close>

datatype parsedLine = Null | HasNaN | Parsed patient

definition patientFromCSVLine :: "string \<Rightarrow> parsedLine" where
  "patientFromCSVLine line =
     (let fields = parseCSVLine line
      in if length fields < 13 then Null
         else
          (case (parseInt (fields ! 0), parseInt (fields ! 2), parseInt (fields ! 6),
                 parseInt (fields ! 8), parseInt (fields ! 9), parseInt (fields ! 11)) of
             (Some i, Some a, Some bed, Some vent, Some sq, Some ms) \<Rightarrow>
               Parsed
                 \<lparr>patientId = i,
                  name = unescapeCSV (fields ! 1),
                  age = a,
                  complaint = unescapeCSV (fields ! 3),
                  severity = intToSeverityParsed (parseInt (fields ! 4)),
                  status = fields ! 5,
                  assignedBed = bed,
                  requiresVentilator = nonZeroParsed (parseInt (fields ! 7)),
                  assignedVentilator = vent,
                  enqueuedSequence = sq,
                  registrationTime = unescapeCSV (fields ! 10),
                  treatmentDurationMs = ms,
                  prescription = unescapeCSV (fields ! 12)\<rparr>
           | _ \<Rightarrow> HasNaN))"

section \<open>Predicates and examples used in the statements\<close>

subsection \<open>The pool\<close>

text \<open>The bounds of the four counters.\<close>

definition poolBounded :: "resources \<Rightarrow> bool" where
  "poolBounded r =
     (0 \<le> usedBeds r \<and> usedBeds r \<le> totalBeds r \<and>
      0 \<le> usedVentilators r \<and> usedVentilators r \<le> totalVentilators r)"

text \<open>A call that sets the totals sets them to numbers that are not negative.\<close>

fun nonNegativeTotals :: "poolCall \<Rightarrow> bool" where
  "nonNegativeTotals (SetTotals beds vents) = (0 \<le> beds \<and> 0 \<le> vents)"
| "nonNegativeTotals _ = True"



subsection \<open>One round of the allocation loop\<close>

text \<open>
  The loop of \<^const>\<open>tryAllocateLoop\<close> read as a repeated step: the front entry is
  admissible when it gets a bed and, if it needs one, a ventilator; then it is admitted;
  otherwise the loop leaves through one of its two \<^verbatim>\<open>break\<close>s.
\<close>

definition frontAdmissible :: "state \<Rightarrow> bool" where
  "frontAdmissible s =
     (case waitingQueue s of
        [] \<Rightarrow> False
      | w # rest \<Rightarrow>
          snd (allocateBed (Resources s)) \<noteq> -1 \<and>
          (if requiresVentilator (patient w)
           then snd (allocateVentilator (fst (allocateBed (Resources s)))) \<noteq> -1 else True))"

definition admitFront :: "state \<Rightarrow> state" where
  "admitFront s =
     (case waitingQueue s of
        [] \<Rightarrow> s
      | w # rest \<Rightarrow>
          (case allocateBed (Resources s) of
             (r1, bedIndex) \<Rightarrow>
               if requiresVentilator (patient w) then
                 (case allocateVentilator r1 of
                    (r2, ventIndex) \<Rightarrow>
                      markAllocated (patient w) bedIndex ventIndex
                        (s\<lparr>Resources := r2, waitingQueue := rest\<rparr>))
               else markAllocated (patient w) bedIndex (-1)
                      (s\<lparr>Resources := r1, waitingQueue := rest\<rparr>)))"

definition blockedFront :: "state \<Rightarrow> state" where
  "blockedFront s =
     (case waitingQueue s of
        [] \<Rightarrow> s
      | w # rest \<Rightarrow>
          (case allocateBed (Resources s) of
             (r1, bedIndex) \<Rightarrow>
               if bedIndex = -1 then s\<lparr>Resources := r1\<rparr>
               else s\<lparr>Resources := releaseBed bedIndex (fst (allocateVentilator r1))\<rparr>))"

text \<open>The record of the front patient once admitted from state \<open>s\<close>.\<close>

definition admittedRecord :: "state \<Rightarrow> patient \<Rightarrow> patient" where
  "admittedRecord s r =
     r\<lparr>assignedBed := usedBeds (Resources s) + 1,
       assignedVentilator :=
         (if requiresVentilator (patient (hd (waitingQueue s)))
          then usedVentilators (Resources s) + 1 else -1),
       status := ''Allocated''\<rparr>"

text \<open>
  State \<open>t\<close> is state \<open>s\<close> after the first \<open>k\<close> entries of its waiting queue were admitted:
  they left the queue in order, their ids joined the ready queue in order, their records
  (where the registry has one) are Allocated with a bed, and no other record changed.
\<close>

definition allocatedPrefix :: "state \<Rightarrow> state \<Rightarrow> nat \<Rightarrow> bool" where
  "allocatedPrefix s t k =
     (k \<le> length (waitingQueue s) \<and>
      waitingQueue t = drop k (waitingQueue s) \<and>
      readyQueue t = readyQueue s @ map (patientId \<circ> patient) (take k (waitingQueue s)) \<and>
      (\<forall>i. i \<notin> set (map (patientId \<circ> patient) (take k (waitingQueue s))) \<longrightarrow>
           patientRecords t i = patientRecords s i) \<and>
      (\<forall>i r. i \<in> set (map (patientId \<circ> patient) (take k (waitingQueue s))) \<longrightarrow>
           patientRecords t i = Some r \<longrightarrow> status r = ''Allocated'' \<and> assignedBed r \<noteq> -1))"


subsection \<open>The registry\<close>

text \<open>Two versions of a record that differ at most in bed, ventilator and status.\<close>

definition sameIdentity :: "patient \<Rightarrow> patient \<Rightarrow> bool" where
  "sameIdentity r r' =
     (patientId r' = patientId r \<and> name r' = name r \<and> age r' = age r \<and>
      complaint r' = complaint r \<and> severity r' = severity r \<and>
      requiresVentilator r' = requiresVentilator r \<and>
      enqueuedSequence r' = enqueuedSequence r \<and> registrationTime r' = registrationTime r \<and>
      treatmentDurationMs r' = treatmentDurationMs r \<and> prescription r' = prescription r)"

definition registryFrame :: "state \<Rightarrow> state \<Rightarrow> bool" where
  "registryFrame s t = (\<forall>i. rel_option sameIdentity (patientRecords s i) (patientRecords t i))"





subsection \<open>The order of the waiting queue\<close>

text \<open>Entry \<open>a\<close> is admitted before \<open>b\<close>: higher severity, or equal severity and earlier
  arrival.\<close>

definition admittedBefore :: "waiting \<Rightarrow> waiting \<Rightarrow> bool" where
  "admittedBefore a b =
     (severity (patient a) > severity (patient b) \<or>
      (severity (patient a) = severity (patient b) \<and> sequence a < sequence b))"

text \<open>The same order, with equal arrival numbers allowed.\<close>

definition notAfter :: "waiting \<Rightarrow> waiting \<Rightarrow> bool" where
  "notAfter a b =
     (severity (patient a) > severity (patient b) \<or>
      (severity (patient a) = severity (patient b) \<and> sequence a \<le> sequence b))"

definition queueOrdered :: "waiting list \<Rightarrow> bool" where
  "queueOrdered q = sorted_wrt admittedBefore q"

definition queueSorted :: "waiting list \<Rightarrow> bool" where
  "queueSorted q = sorted_wrt notAfter q"

definition sequencesBelowCounter :: "state \<Rightarrow> bool" where
  "sequencesBelowCounter s = list_all (\<lambda>e. sequence e < sequenceCounter s) (waitingQueue s)"

definition priorityKey :: "waiting \<Rightarrow> int \<times> int" where
  "priorityKey e = (severity (patient e), sequence e)"

definition queueInvariant :: "state \<Rightarrow> bool" where
  "queueInvariant s = (queueOrdered (waitingQueue s) \<and> sequencesBelowCounter s)"

subsection \<open>Handles\<close>

text \<open>No two patients hold the same bed handle, nor the same ventilator handle; a
  patient holds a resource when the field is not \<open>-1\<close>.\<close>

definition handlesUnique :: "state \<Rightarrow> bool" where
  "handlesUnique s =
     (\<forall>i j p q. patientRecords s i = Some p \<longrightarrow> patientRecords s j = Some q \<longrightarrow> i \<noteq> j \<longrightarrow>
        (assignedBed p \<noteq> -1 \<longrightarrow> assignedBed q \<noteq> -1 \<longrightarrow> assignedBed p \<noteq> assignedBed q) \<and>
        (assignedVentilator p \<noteq> -1 \<longrightarrow> assignedVentilator q \<noteq> -1 \<longrightarrow>
           assignedVentilator p \<noteq> assignedVentilator q))"



text \<open>
  The state of an event at the point where its allocation pass starts: the new patient
  is queued, or the resources of the discharged patient are given back; for an event
  with no pass, the state the event leaves.
\<close>

fun beforePass :: "state \<Rightarrow> event \<Rightarrow> state" where
  "beforePass s (Register a) =
     sortWaitingQueue
       (s\<lparr>nextPatientId := nextPatientId s + 1,
          sequenceCounter := sequenceCounter s + 1,
          patientRecords := (patientRecords s)(patientId (newPatient a s) \<mapsto> newPatient a s),
          waitingQueue := waitingQueue s @
            [\<lparr>patient = newPatient a s, sequence = enqueuedSequence (newPatient a s)\<rparr>]\<rparr>)"
| "beforePass s (Discharge i) =
     (case patientRecords s i of
        None \<Rightarrow> s
      | Some p \<Rightarrow>
          s\<lparr>Resources := snd (releaseHeld p (Resources s)),
            patientRecords := (patientRecords s)
              (i \<mapsto> fst (releaseHeld p (Resources s))\<lparr>status := ''Discharged''\<rparr>)\<rparr>)"
| "beforePass s (TreatmentDone pid) =
     (if pid \<in> activeTreatmentTimers s then
        (case patientRecords s pid of
           None \<Rightarrow> s\<lparr>activeTreatmentTimers := activeTreatmentTimers s - {pid}\<rparr>
         | Some r \<Rightarrow>
             s\<lparr>Resources :=
                 snd (releaseHeld
                        (r\<lparr>prescription := generatePrescription r, status := ''Discharged''\<rparr>)
                        (Resources s)),
               patientRecords := (patientRecords s)
                 (pid \<mapsto> fst (releaseHeld
                        (r\<lparr>prescription := generatePrescription r, status := ''Discharged''\<rparr>)
                        (Resources s)))\<rparr>)
      else s)"
| "beforePass s e = step s e"












subsection \<open>Example inputs\<close>

definition exampleAttrs :: attrs where
  "exampleAttrs =
     \<lparr>attrName = ''Asha'', attrAge = 30, attrComplaint = ''cough'', attrSeverity = 1,
      attrRequiresVentilator = False, attrTimestamp = ''2024-01-01 10:00:00''\<rparr>"

definition ventilatorAttrs :: attrs where
  "ventilatorAttrs =
     \<lparr>attrName = ''Ravi'', attrAge = 61, attrComplaint = ''not breathing'', attrSeverity = 3,
      attrRequiresVentilator = True, attrTimestamp = ''2024-01-01 10:05:00''\<rparr>"

definition seriousAttrs :: attrs where
  "seriousAttrs =
     \<lparr>attrName = ''Meera'', attrAge = 45, attrComplaint = ''fracture'', attrSeverity = 2,
      attrRequiresVentilator = False, attrTimestamp = ''2024-01-01 10:10:00''\<rparr>"


text \<open>No bed at all, and two waiting patients; the second needs a bed only.\<close>

definition bedsExhausted :: state where
  "bedsExhausted = run [Register ventilatorAttrs, Register exampleAttrs]"

text \<open>Two waiting patients, then one bed is configured.\<close>

definition oneBedTwoWaiting :: state where
  "oneBedTwoWaiting = run [Register exampleAttrs, Register exampleAttrs, Configure 1 0 1]"

definition mixedArrivals :: "event list" where
  "mixedArrivals =
     [Register exampleAttrs, Register seriousAttrs, Register ventilatorAttrs,
      Register exampleAttrs, Register seriousAttrs]"

text \<open>A patient with bed and ventilator, picked up by a doctor.\<close>

definition inTreatment :: state where
  "inTreatment = run [Configure 1 1 1, Register ventilatorAttrs, StartWorkers, WorkerPickup]"





text \<open>A record whose name is two double quote characters.\<close>

definition quotedName :: patient where
  "quotedName =
     \<lparr>patientId = 1, name = [dquote, dquote], age = 30, complaint = ''cough'', severity = 1,
      status = ''Waiting'', assignedBed = -1, requiresVentilator = False,
      assignedVentilator = -1, enqueuedSequence = 0,
      registrationTime = ''2024-01-01 10:00:00'', treatmentDurationMs = 35000,
      prescription = ''''\<rparr>"

section \<open>The resource counters\<close>

lemma poolStep_bounded:
  "poolBounded r \<Longrightarrow> nonNegativeTotals c \<Longrightarrow> poolBounded (poolStep r c)"
  by (cases c)
     (auto simp: poolBounded_def allocateBed_def releaseBed_def allocateVentilator_def
        releaseVentilator_def setTotals_def)

lemma poolRun_bounded:
  "poolBounded r \<Longrightarrow> list_all nonNegativeTotals calls \<Longrightarrow> poolBounded (poolRun calls r)"
  unfolding poolRun_def
  by (induction calls arbitrary: r) (auto simp: poolStep_bounded)

text \<open>
  C4, as stated, fails: \<^verbatim>\<open>setTotals\<close> stores the caller's numbers unchecked and clamps
  the used counters down to them, so a negative total makes a used counter negative.
\<close>

theorem pool_negative_totals_counterexample:
  "\<not> (0 \<le> usedBeds (poolRun [SetTotals (-1) 0] initialResources))"
  by (simp add: poolRun_def setTotals_def initialResources_def)

text \<open>
  C4, amended: starting from the initial pool, after any sequence of calls of
  \<^verbatim>\<open>allocateBed\<close>, \<^verbatim>\<open>releaseBed\<close>, \<^verbatim>\<open>allocateVentilator\<close>, \<^verbatim>\<open>releaseVentilator\<close> and
  \<^verbatim>\<open>setTotals\<close> in which every \<^verbatim>\<open>setTotals\<close> receives totals that are not negative,
  \<open>0 \<le> usedBeds \<le> totalBeds\<close> and \<open>0 \<le> usedVentilators \<le> totalVentilators\<close>.
\<close>

theorem pool_counters_bounded:
  "list_all nonNegativeTotals calls \<Longrightarrow> poolBounded (poolRun calls initialResources)"
  by (rule poolRun_bounded) (simp_all add: poolBounded_def initialResources_def)

theorem pool_counters_bounded_witness:
  "list_all nonNegativeTotals
     [SetTotals 2 1, AllocateBed, AllocateVentilator, ReleaseBed 1, SetTotals 0 0]
   \<and> poolBounded
       (poolRun [SetTotals 2 1, AllocateBed, AllocateVentilator, ReleaseBed 1, SetTotals 0 0]
          initialResources)
   \<and> usedVentilators
       (poolRun [SetTotals 2 1, AllocateBed, AllocateVentilator, ReleaseBed 1, SetTotals 0 0]
          initialResources) = 0"
  using pool_counters_bounded
    [of "[SetTotals 2 1, AllocateBed, AllocateVentilator, ReleaseBed 1, SetTotals 0 0]"]
  by (simp add: poolRun_def initialResources_def allocateBed_def allocateVentilator_def
      releaseBed_def setTotals_def)

section \<open>The allocation loop, one round at a time\<close>

declare tryAllocateLoop.simps [simp del]

lemma tryAllocateLoop_unfold:
  "tryAllocateLoop s pr =
     (if frontAdmissible s then tryAllocateLoop (admitFront s) True else (blockedFront s, pr))"
  by (subst tryAllocateLoop.simps)
     (auto simp: frontAdmissible_def admitFront_def blockedFront_def
        split: list.splits prod.splits)

lemma tryAllocate_stuck:
  "\<not> frontAdmissible s \<Longrightarrow> tryAllocateLoop s pr = (blockedFront s, pr)"
  by (subst tryAllocateLoop_unfold) simp

lemma frontAdmissible_nonempty: "frontAdmissible s \<Longrightarrow> waitingQueue s \<noteq> []"
  by (auto simp: frontAdmissible_def)

lemma frontAdmissible_bed:
  "frontAdmissible s \<Longrightarrow>
     usedBeds (Resources s) < totalBeds (Resources s) \<and> usedBeds (Resources s) + 1 \<noteq> -1"
  by (auto simp: frontAdmissible_def allocateBed_def split: list.splits if_splits)


text \<open>What an admission changes, field by field.\<close>

lemma admitFront_queue:
  "frontAdmissible s \<Longrightarrow> waitingQueue (admitFront s) = tl (waitingQueue s)"
  by (auto simp: frontAdmissible_def admitFront_def markAllocated_def Let_def
      split: list.splits prod.splits)

lemma admitFront_records:
  "frontAdmissible s \<Longrightarrow>
     patientRecords (admitFront s) =
       (case patientRecords s (patientId (patient (hd (waitingQueue s)))) of
          None \<Rightarrow> patientRecords s
        | Some r \<Rightarrow>
            (patientRecords s)(patientId (patient (hd (waitingQueue s))) \<mapsto> admittedRecord s r))"
  by (auto simp: frontAdmissible_def admitFront_def markAllocated_def Let_def admittedRecord_def
      allocateBed_def allocateVentilator_def
      split: list.splits prod.splits option.splits if_splits)

lemma admitFront_ready:
  "frontAdmissible s \<Longrightarrow>
     readyQueue (admitFront s) = readyQueue s @ [patientId (patient (hd (waitingQueue s)))]"
  by (auto simp: frontAdmissible_def admitFront_def markAllocated_def Let_def
      split: list.splits prod.splits)


lemma admitFront_others:
  "systemRunning (admitFront s) = systemRunning s"
  "numberOfDoctors (admitFront s) = numberOfDoctors s"
  "sequenceCounter (admitFront s) = sequenceCounter s"
  "nextPatientId (admitFront s) = nextPatientId s"
  "activeTreatmentTimers (admitFront s) = activeTreatmentTimers s"
  by (auto simp: admitFront_def markAllocated_def Let_def split: list.splits prod.splits)

lemma blockedFront_fields:
  "waitingQueue (blockedFront s) = waitingQueue s"
  "readyQueue (blockedFront s) = readyQueue s"
  "patientRecords (blockedFront s) = patientRecords s"
  "systemRunning (blockedFront s) = systemRunning s"
  "numberOfDoctors (blockedFront s) = numberOfDoctors s"
  "sequenceCounter (blockedFront s) = sequenceCounter s"
  "nextPatientId (blockedFront s) = nextPatientId s"
  "activeTreatmentTimers (blockedFront s) = activeTreatmentTimers s"
  by (auto simp: blockedFront_def split: list.splits prod.splits)


text \<open>
  The proof rule of the loop: what holds at the start and survives every admission holds
  when the loop leaves, after the last, blocked, round.
\<close>

lemma tryAllocateLoop_rule:
  assumes start: "P s"
    and admit: "\<And>t. P t \<Longrightarrow> frontAdmissible t \<Longrightarrow> P (admitFront t)"
    and stop: "\<And>t. P t \<Longrightarrow> \<not> frontAdmissible t \<Longrightarrow> Q (blockedFront t)"
  shows "Q (fst (tryAllocateLoop s pr))"
  using start
proof (induction "length (waitingQueue s)" arbitrary: s pr rule: less_induct)
  case less
  show ?case
  proof (cases "frontAdmissible s")
    case True
    have "length (waitingQueue (admitFront s)) < length (waitingQueue s)"
      using True frontAdmissible_nonempty[OF True] by (simp add: admitFront_queue)
    from less.hyps[OF this, of True] admit[OF less.prems True] True
    show ?thesis by (subst tryAllocateLoop_unfold) simp
  next
    case False
    with stop[OF less.prems False] show ?thesis
      by (subst tryAllocateLoop_unfold) simp
  qed
qed

text \<open>The pass leaves everything but the pool, the registry and the two queues alone.\<close>

lemma tryAllocateLoop_others:
  "systemRunning (fst (tryAllocateLoop s pr)) = systemRunning s \<and>
   numberOfDoctors (fst (tryAllocateLoop s pr)) = numberOfDoctors s \<and>
   sequenceCounter (fst (tryAllocateLoop s pr)) = sequenceCounter s \<and>
   nextPatientId (fst (tryAllocateLoop s pr)) = nextPatientId s \<and>
   activeTreatmentTimers (fst (tryAllocateLoop s pr)) = activeTreatmentTimers s"
  by (rule tryAllocateLoop_rule
        [where P = "\<lambda>t. systemRunning t = systemRunning s \<and>
                      numberOfDoctors t = numberOfDoctors s \<and>
                      sequenceCounter t = sequenceCounter s \<and>
                      nextPatientId t = nextPatientId s \<and>
                      activeTreatmentTimers t = activeTreatmentTimers s"])
     (simp_all add: admitFront_others blockedFront_fields)

lemma run_snoc: "run (evs @ [e]) = step (run evs) e"
  by (simp add: run_def)

lemma set_arrayInsert: "set (arrayInsert cmp x ys) = insert x (set ys)"
  by (induction ys) auto

lemma set_arraySort: "set (arraySort cmp xs) = set xs"
  unfolding arraySort_def by (induction xs) (auto simp: set_arrayInsert)

lemma releaseHeld_patient:
  "fst (releaseHeld p r) = p\<lparr>assignedBed := -1, assignedVentilator := -1\<rparr>"
  by (simp add: releaseHeld_def Let_def split: prod.splits)

section \<open>Head-of-line blocking\<close>

lemma allocatedPrefix_refl: "allocatedPrefix s s 0"
  by (simp add: allocatedPrefix_def)

lemma allocatedPrefix_admit:
  assumes p: "allocatedPrefix s t k" and a: "frontAdmissible t"
  shows "allocatedPrefix s (admitFront t) (Suc k)"
proof -
  let ?q = "waitingQueue s"
  let ?ids = "\<lambda>n. set (map (patientId \<circ> patient) (take n ?q))"
  from p have k: "k \<le> length ?q" and wq: "waitingQueue t = drop k ?q"
    and rq: "readyQueue t = readyQueue s @ map (patientId \<circ> patient) (take k ?q)"
    and same: "\<And>i. i \<notin> ?ids k \<Longrightarrow> patientRecords t i = patientRecords s i"
    and alloc: "\<And>i r. i \<in> ?ids k \<Longrightarrow> patientRecords t i = Some r \<Longrightarrow>
                  status r = ''Allocated'' \<and> assignedBed r \<noteq> -1"
    by (auto simp: allocatedPrefix_def)
  from a wq have lt: "k < length ?q"
    using frontAdmissible_nonempty[OF a] by auto
  then have hd: "hd (waitingQueue t) = ?q ! k"
    by (simp add: wq hd_drop_conv_nth)
  have tk: "take (Suc k) ?q = take k ?q @ [?q ! k]"
    using lt by (simp add: take_Suc_conv_app_nth)
  have ids: "?ids (Suc k) = insert (patientId (patient (?q ! k))) (?ids k)"
    by (simp add: tk)
  have 1: "Suc k \<le> length ?q" using lt by simp
  have 2: "waitingQueue (admitFront t) = drop (Suc k) ?q"
    by (simp add: admitFront_queue[OF a] wq drop_Suc tl_drop)
  have 3: "readyQueue (admitFront t) =
             readyQueue s @ map (patientId \<circ> patient) (take (Suc k) ?q)"
    by (simp add: admitFront_ready[OF a] rq hd tk)
  have 4: "patientRecords (admitFront t) i = patientRecords s i" if "i \<notin> ?ids (Suc k)" for i
  proof -
    from that have "i \<notin> ?ids k" and "i \<noteq> patientId (patient (?q ! k))"
      unfolding ids by blast+
    then show ?thesis
      using same[of i] by (simp add: admitFront_records[OF a] hd split: option.splits)
  qed
  have 5: "status r = ''Allocated'' \<and> assignedBed r \<noteq> -1"
    if "i \<in> ?ids (Suc k)" "patientRecords (admitFront t) i = Some r" for i r
  proof (cases "i = patientId (patient (?q ! k))")
    case True
    with that(2) frontAdmissible_bed[OF a] show ?thesis
      by (auto simp: admitFront_records[OF a] hd admittedRecord_def split: option.splits)
  next
    case False
    with that(1) have "i \<in> ?ids k"
      unfolding ids by blast
    moreover from False that(2) have "patientRecords t i = Some r"
      by (simp add: admitFront_records[OF a] hd split: option.splits)
    ultimately show ?thesis by (rule alloc)
  qed
  from 1 2 3 4 5 show ?thesis
    unfolding allocatedPrefix_def by blast
qed

lemma allocatedPrefix_blocked:
  "allocatedPrefix s t k \<Longrightarrow> allocatedPrefix s (blockedFront t) k"
  by (simp add: allocatedPrefix_def blockedFront_fields)

lemma tryAllocateLoop_prefix: "\<exists>k. allocatedPrefix s (fst (tryAllocateLoop s pr)) k"
  by (rule tryAllocateLoop_rule [where P = "\<lambda>t. \<exists>k. allocatedPrefix s t k"])
     (blast intro: allocatedPrefix_refl allocatedPrefix_admit allocatedPrefix_blocked)+

lemma tryAllocate_drops:
  "\<exists>k. waitingQueue (tryAllocateResources s) = drop k (waitingQueue s)"
  using tryAllocateLoop_prefix[of s False]
  by (auto simp: tryAllocateResources_def allocatedPrefix_def)

text \<open>
  C6: when the bed allocation for the front patient fails, and more generally whenever
  the front patient cannot be given all it needs, the pass leaves both queues and the
  registry as they were, whatever the patients behind the front need; in every case the
  pass admits a prefix of the waiting queue (\<^const>\<open>allocatedPrefix\<close>).
\<close>

theorem head_of_line_blocking:
  "(snd (allocateBed (Resources s)) = -1 \<longrightarrow>
      waitingQueue (tryAllocateResources s) = waitingQueue s \<and>
      readyQueue (tryAllocateResources s) = readyQueue s \<and>
      patientRecords (tryAllocateResources s) = patientRecords s) \<and>
   (\<not> frontAdmissible s \<longrightarrow>
      waitingQueue (tryAllocateResources s) = waitingQueue s \<and>
      readyQueue (tryAllocateResources s) = readyQueue s \<and>
      patientRecords (tryAllocateResources s) = patientRecords s) \<and>
   (\<exists>k. allocatedPrefix s (tryAllocateResources s) k)"
proof -
  have stuck: "waitingQueue (tryAllocateResources s) = waitingQueue s \<and>
      readyQueue (tryAllocateResources s) = readyQueue s \<and>
      patientRecords (tryAllocateResources s) = patientRecords s" if "\<not> frontAdmissible s"
    using that by (simp add: tryAllocateResources_def tryAllocate_stuck blockedFront_fields)
  have "\<not> frontAdmissible s" if "snd (allocateBed (Resources s)) = -1"
    using that by (simp add: frontAdmissible_def split: list.splits)
  with stuck tryAllocateLoop_prefix[of s False] show ?thesis
    unfolding tryAllocateResources_def by blast
qed

theorem head_of_line_blocking_witness:
  "snd (allocateBed (Resources bedsExhausted)) = -1 \<and>
   \<not> frontAdmissible bedsExhausted \<and>
   map (patientId \<circ> patient) (waitingQueue bedsExhausted) = [1, 2] \<and>
   \<not> requiresVentilator (patient (waitingQueue bedsExhausted ! 1)) \<and>
   waitingQueue (tryAllocateResources bedsExhausted) = waitingQueue bedsExhausted \<and>
   readyQueue (tryAllocateResources bedsExhausted) = readyQueue bedsExhausted \<and>
   patientRecords (tryAllocateResources bedsExhausted) = patientRecords bedsExhausted \<and>
   (\<exists>k. allocatedPrefix oneBedTwoWaiting (tryAllocateResources oneBedTwoWaiting) k) \<and>
   map (patientId \<circ> patient) (waitingQueue oneBedTwoWaiting) = [1, 2] \<and>
   map (patientId \<circ> patient) (waitingQueue (tryAllocateResources oneBedTwoWaiting)) = [2] \<and>
   readyQueue (tryAllocateResources oneBedTwoWaiting) = [1]"
proof -
  have b: "snd (allocateBed (Resources bedsExhausted)) = -1"
    unfolding bedsExhausted_def by code_simp
  have n: "\<not> frontAdmissible bedsExhausted"
    unfolding bedsExhausted_def by code_simp
  have q: "map (patientId \<circ> patient) (waitingQueue bedsExhausted) = [1, 2]"
    unfolding bedsExhausted_def by code_simp
  have v: "\<not> requiresVentilator (patient (waitingQueue bedsExhausted ! 1))"
    unfolding bedsExhausted_def by code_simp
  have q1: "map (patientId \<circ> patient) (waitingQueue oneBedTwoWaiting) = [1, 2]"
    unfolding oneBedTwoWaiting_def by code_simp
  have q2: "map (patientId \<circ> patient) (waitingQueue (tryAllocateResources oneBedTwoWaiting))
              = [2]"
    unfolding oneBedTwoWaiting_def by code_simp
  have r2: "readyQueue (tryAllocateResources oneBedTwoWaiting) = [1]"
    unfolding oneBedTwoWaiting_def by code_simp
  from head_of_line_blocking[of bedsExhausted] head_of_line_blocking[of oneBedTwoWaiting]
    b n q v q1 q2 r2
  show ?thesis by blast
qed

section \<open>What the allocation pass does to the registry\<close>

lemma sameIdentity_refl: "sameIdentity r r"
  by (simp add: sameIdentity_def)

lemma sameIdentity_trans: "sameIdentity a b \<Longrightarrow> sameIdentity b c \<Longrightarrow> sameIdentity a c"
  by (simp add: sameIdentity_def)

lemma registryFrame_refl: "registryFrame s s"
  by (simp add: registryFrame_def option.rel_refl sameIdentity_refl)

lemma registryFrame_trans: "registryFrame s t \<Longrightarrow> registryFrame t u \<Longrightarrow> registryFrame s u"
  unfolding registryFrame_def
proof
  fix i assume a: "\<forall>i. rel_option sameIdentity (patientRecords s i) (patientRecords t i)"
    and b: "\<forall>i. rel_option sameIdentity (patientRecords t i) (patientRecords u i)"
  from a b have "rel_option sameIdentity (patientRecords s i) (patientRecords t i)"
    "rel_option sameIdentity (patientRecords t i) (patientRecords u i)" by blast+
  then show "rel_option sameIdentity (patientRecords s i) (patientRecords u i)"
    by (cases "patientRecords s i"; cases "patientRecords t i"; cases "patientRecords u i")
       (auto intro: sameIdentity_trans)
qed

lemma registryFrame_admit: "frontAdmissible t \<Longrightarrow> registryFrame t (admitFront t)"
  by (auto simp: registryFrame_def admitFront_records admittedRecord_def sameIdentity_def
      option.rel_refl split: option.splits)

lemma tryAllocateLoop_frame: "registryFrame s (fst (tryAllocateLoop s pr))"
proof (rule tryAllocateLoop_rule [where P = "registryFrame s"])
  show "registryFrame s s" by (rule registryFrame_refl)
next
  fix t assume "registryFrame s t" "frontAdmissible t"
  then show "registryFrame s (admitFront t)"
    by (blast intro: registryFrame_trans registryFrame_admit)
next
  fix t assume "registryFrame s t"
  then show "registryFrame s (blockedFront t)"
    by (simp add: registryFrame_def blockedFront_fields)
qed

section \<open>All-or-nothing allocation\<close>





























section \<open>The order of the waiting queue\<close>

lemma admittedBefore_trans:
  "admittedBefore a b \<Longrightarrow> admittedBefore b c \<Longrightarrow> admittedBefore a c"
  by (auto simp: admittedBefore_def)

lemma admittedBefore_key: "admittedBefore a b \<Longrightarrow> priorityKey a \<noteq> priorityKey b"
  by (auto simp: admittedBefore_def priorityKey_def)

lemma admittedBefore_notAfter: "admittedBefore a b \<Longrightarrow> notAfter a b"
  by (auto simp: admittedBefore_def notAfter_def)

text \<open>The comparator of the program is this order.\<close>

lemma notAfter_compare: "notAfter a b = (compareWaiting a b \<le> 0)"
  by (auto simp: notAfter_def compareWaiting_def)

lemma admittedBefore_compare: "admittedBefore a b = (compareWaiting a b < 0)"
  by (auto simp: admittedBefore_def compareWaiting_def)

lemma notAfter_trans: "notAfter a b \<Longrightarrow> notAfter b c \<Longrightarrow> notAfter a c"
  by (auto simp: notAfter_def)

lemma compare_admittedBefore:
  "priorityKey a \<noteq> priorityKey b \<Longrightarrow> admittedBefore a b = (compareWaiting a b \<le> 0)"
  by (auto simp: admittedBefore_def priorityKey_def compareWaiting_def)

lemma compare_admittedBefore_rev: "\<not> compareWaiting a b \<le> 0 \<Longrightarrow> admittedBefore b a"
  by (auto simp: admittedBefore_def compareWaiting_def split: if_splits)

text \<open>The sort returns a sorted list, whatever it is given.\<close>

lemma queueSorted_insert:
  "queueSorted ys \<Longrightarrow> queueSorted (arrayInsert compareWaiting x ys)"
proof (induction ys)
  case Nil
  show ?case by (simp add: queueSorted_def)
next
  case (Cons y ys)
  from Cons.prems have ord: "queueSorted ys" and ys: "\<forall>z \<in> set ys. notAfter y z"
    by (auto simp: queueSorted_def)
  show ?case
  proof (cases "compareWaiting x y \<le> 0")
    case True
    then have xy: "notAfter x y" by (simp add: notAfter_compare)
    with ys have "\<forall>z \<in> set ys. notAfter x z"
      by (blast intro: notAfter_trans)
    with xy Cons.prems True show ?thesis by (simp add: queueSorted_def)
  next
    case False
    then have yx: "notAfter y x"
      by (blast intro: admittedBefore_notAfter compare_admittedBefore_rev)
    from Cons.IH[OF ord] have "queueSorted (arrayInsert compareWaiting x ys)" .
    with yx ys False show ?thesis
      by (simp add: queueSorted_def set_arrayInsert)
  qed
qed

lemma queueSorted_arraySort: "queueSorted (arraySort compareWaiting xs)"
proof (induction xs)
  case Nil
  show ?case by (simp add: arraySort_def queueSorted_def)
next
  case (Cons x xs)
  then have "queueSorted (arrayInsert compareWaiting x (arraySort compareWaiting xs))"
    by (rule queueSorted_insert)
  then show ?case by (simp add: arraySort_def)
qed

text \<open>With pairwise different keys the sorted list is strictly ordered.\<close>

lemma queueOrdered_insert:
  "queueOrdered ys \<Longrightarrow> \<forall>y \<in> set ys. priorityKey x \<noteq> priorityKey y \<Longrightarrow>
     queueOrdered (arrayInsert compareWaiting x ys)"
proof (induction ys)
  case Nil
  show ?case by (simp add: queueOrdered_def)
next
  case (Cons y ys)
  from Cons.prems have ord: "queueOrdered ys" and ys: "\<forall>z \<in> set ys. admittedBefore y z"
    and kx: "priorityKey x \<noteq> priorityKey y" "\<forall>z \<in> set ys. priorityKey x \<noteq> priorityKey z"
    by (auto simp: queueOrdered_def)
  show ?case
  proof (cases "compareWaiting x y \<le> 0")
    case True
    with kx have xy: "admittedBefore x y" by (simp add: compare_admittedBefore)
    with ys have "\<forall>z \<in> set ys. admittedBefore x z"
      by (blast intro: admittedBefore_trans)
    with xy Cons.prems(1) True show ?thesis by (simp add: queueOrdered_def)
  next
    case False
    then have yx: "admittedBefore y x" by (rule compare_admittedBefore_rev)
    from Cons.IH[OF ord kx(2)] have "queueOrdered (arrayInsert compareWaiting x ys)" .
    with yx ys False show ?thesis
      by (simp add: queueOrdered_def set_arrayInsert)
  qed
qed

lemma queueOrdered_arraySort:
  "distinct (map priorityKey xs) \<Longrightarrow> queueOrdered (arraySort compareWaiting xs)"
proof (induction xs)
  case Nil
  show ?case by (simp add: arraySort_def queueOrdered_def)
next
  case (Cons x xs)
  then have "queueOrdered (arraySort compareWaiting xs)"
    and "\<forall>y \<in> set (arraySort compareWaiting xs). priorityKey x \<noteq> priorityKey y"
    by (auto simp: set_arraySort)
  then have "queueOrdered (arrayInsert compareWaiting x (arraySort compareWaiting xs))"
    by (rule queueOrdered_insert)
  then show ?case by (simp add: arraySort_def)
qed

lemma queueOrdered_distinct: "queueOrdered q \<Longrightarrow> distinct (map priorityKey q)"
  unfolding queueOrdered_def
  by (induction q) (auto dest: admittedBefore_key)

text \<open>Sorting an ordered queue changes nothing.\<close>

lemma arrayInsert_front:
  "\<forall>y \<in> set ys. admittedBefore x y \<Longrightarrow> arrayInsert compareWaiting x ys = x # ys"
  by (cases ys) (auto simp: admittedBefore_def compareWaiting_def)

lemma arraySort_ordered: "queueOrdered q \<Longrightarrow> arraySort compareWaiting q = q"
  unfolding queueOrdered_def
proof (induction q)
  case Nil
  show ?case by (simp add: arraySort_def)
next
  case (Cons x q)
  then have "arraySort compareWaiting q = q" and "\<forall>y \<in> set q. admittedBefore x y" by auto
  then show ?case
    using arrayInsert_front[of q x] by (simp add: arraySort_def)
qed

lemma queueOrdered_tryAllocate:
  "queueOrdered (waitingQueue s) \<Longrightarrow> queueOrdered (waitingQueue (tryAllocateResources s))"
  using tryAllocate_drops[of s] by (auto simp: queueOrdered_def sorted_wrt_drop)

lemma queueSorted_tryAllocate:
  "queueSorted (waitingQueue s) \<Longrightarrow> queueSorted (waitingQueue (tryAllocateResources s))"
  using tryAllocate_drops[of s] by (auto simp: queueSorted_def sorted_wrt_drop)

lemma queueSorted_register: "queueSorted (waitingQueue (registerPatient a s))"
  by (simp add: registerPatient_def Let_def queueSorted_tryAllocate sortWaitingQueue_def
      queueSorted_arraySort)

lemma queueInvariant_tryAllocate:
  "queueInvariant s \<Longrightarrow> queueInvariant (tryAllocateResources s)"
proof -
  assume i: "queueInvariant s"
  obtain k where q: "waitingQueue (tryAllocateResources s) = drop k (waitingQueue s)"
    using tryAllocate_drops[of s] by blast
  have c: "sequenceCounter (tryAllocateResources s) = sequenceCounter s"
    using tryAllocateLoop_others[of s False] by (simp add: tryAllocateResources_def)
  from i have "sequencesBelowCounter (tryAllocateResources s)"
    unfolding queueInvariant_def sequencesBelowCounter_def q c list_all_iff
    by (blast dest: in_set_dropD)
  with i queueOrdered_tryAllocate[of s] show ?thesis by (simp add: queueInvariant_def)
qed

lemma queueInvariant_register:
  assumes "queueInvariant s"
  shows "queueInvariant (registerPatient a s)"
proof -
  let ?p = "newPatient a s"
  let ?e = "\<lparr>patient = ?p, sequence = enqueuedSequence ?p\<rparr>"
  let ?s1 = "s\<lparr>nextPatientId := nextPatientId s + 1,
               sequenceCounter := sequenceCounter s + 1,
               patientRecords := (patientRecords s)(patientId ?p \<mapsto> ?p),
               waitingQueue := waitingQueue s @ [?e]\<rparr>"
  from assms have o: "queueOrdered (waitingQueue s)"
    and b: "\<forall>e \<in> set (waitingQueue s). sequence e < sequenceCounter s"
    by (auto simp: queueInvariant_def sequencesBelowCounter_def list_all_iff)
  have sq: "sequence ?e = sequenceCounter s" by (simp add: newPatient_def)
  with b have "priorityKey ?e \<notin> priorityKey ` set (waitingQueue s)"
    by (auto simp: priorityKey_def)
  with queueOrdered_distinct[OF o] have "distinct (map priorityKey (waitingQueue s @ [?e]))"
    by simp
  then have 1: "queueOrdered (waitingQueue (sortWaitingQueue ?s1))"
    by (simp add: sortWaitingQueue_def queueOrdered_arraySort)
  from b sq have 2: "sequencesBelowCounter (sortWaitingQueue ?s1)"
    by (auto simp: sequencesBelowCounter_def sortWaitingQueue_def list_all_iff set_arraySort)
  from 1 2 have "queueInvariant (sortWaitingQueue ?s1)" by (simp add: queueInvariant_def)
  then have "queueInvariant (tryAllocateResources (sortWaitingQueue ?s1))"
    by (rule queueInvariant_tryAllocate)
  then show ?thesis by (simp add: registerPatient_def Let_def)
qed

lemma queueInvariant_same:
  "queueInvariant s \<Longrightarrow> waitingQueue t = waitingQueue s \<Longrightarrow>
     sequenceCounter t = sequenceCounter s \<Longrightarrow> queueInvariant t"
  by (simp add: queueInvariant_def sequencesBelowCounter_def)

lemma queueInvariant_step: "queueInvariant s \<Longrightarrow> queueInvariant (step s e)"
proof (cases e)
  case (Register a)
  assume "queueInvariant s" with Register show ?thesis by (simp add: queueInvariant_register)
next
  case (Discharge i)
  assume s: "queueInvariant s"
  show ?thesis
  proof (cases "patientRecords s i")
    case None
    with s Discharge show ?thesis by (simp add: dischargePatient_def)
  next
    case (Some p)
    have "queueInvariant (tryAllocateResources
            (s\<lparr>Resources := snd (releaseHeld p (Resources s)),
               patientRecords := (patientRecords s)
                 (i \<mapsto> fst (releaseHeld p (Resources s))\<lparr>status := ''Discharged''\<rparr>)\<rparr>))"
      by (rule queueInvariant_tryAllocate, rule queueInvariant_same[OF s]) simp_all
    with Some Discharge show ?thesis by (simp add: dischargePatient_def case_prod_beta)
  qed
next
  case (Configure b v d)
  assume "queueInvariant s"
  then have "queueInvariant (configure b v d s)"
    by (rule queueInvariant_same) (simp_all add: configure_def)
  with Configure show ?thesis by simp
next
  case (QueuePosition i)
  assume s: "queueInvariant s"
  then have "arraySort compareWaiting (waitingQueue s) = waitingQueue s"
    by (simp add: queueInvariant_def arraySort_ordered)
  then have "queueInvariant (sortWaitingQueue s)"
    by (intro queueInvariant_same[OF s]) (simp_all add: sortWaitingQueue_def)
  with QueuePosition show ?thesis by (simp add: queuePosition_def Let_def)
next
  case StartWorkers
  assume "queueInvariant s"
  then have "queueInvariant (startDoctorWorkers s)"
    by (rule queueInvariant_same) (simp_all add: startDoctorWorkers_def)
  with StartWorkers show ?thesis by simp
next
  case StopWorkers
  assume "queueInvariant s"
  then have "queueInvariant (stopDoctorWorkers s)"
    by (rule queueInvariant_same) (simp_all add: stopDoctorWorkers_def)
  with StopWorkers show ?thesis by simp
next
  case WorkerPickup
  assume "queueInvariant s"
  then have "queueInvariant (doctorPickup s)"
    by (rule queueInvariant_same)
       (simp_all add: doctorPickup_def Let_def split: list.splits option.splits)
  with WorkerPickup show ?thesis by simp
next
  case (TreatmentDone pid)
  assume s: "queueInvariant s"
  have "queueInvariant (treatmentTimeout pid s)"
  proof (cases "patientRecords s pid")
    case None
    with s show ?thesis
      by (auto simp: treatmentTimeout_def Let_def elim: queueInvariant_same)
  next
    case (Some p)
    let ?d = "p\<lparr>prescription := generatePrescription p, status := ''Discharged''\<rparr>"
    let ?t = "tryAllocateResources
               (s\<lparr>Resources := snd (releaseHeld ?d (Resources s)),
                  patientRecords := (patientRecords s)(pid \<mapsto> fst (releaseHeld ?d (Resources s)))\<rparr>)"
    have "queueInvariant ?t"
      by (rule queueInvariant_tryAllocate, rule queueInvariant_same[OF s]) simp_all
    then have "queueInvariant (?t\<lparr>activeTreatmentTimers := activeTreatmentTimers ?t - {pid}\<rparr>)"
      by (rule queueInvariant_same) simp_all
    with Some show ?thesis by (simp add: treatmentTimeout_def Let_def case_prod_beta)
  qed
  with s TreatmentDone show ?thesis by simp
qed

lemma queueInvariant_run: "queueInvariant (run evs)"
proof (induction evs rule: rev_induct)
  case Nil
  show ?case
    by (simp add: run_def queueInvariant_def queueOrdered_def sequencesBelowCounter_def
        initialState_def)
next
  case (snoc e evs)
  then show ?case by (simp add: run_snoc queueInvariant_step)
qed

text \<open>
  C7: in every state of every run the waiting queue is ordered by severity descending and,
  within a severity, by arrival sequence ascending, with no two entries of equal rank
  (\<^const>\<open>queueOrdered\<close>). Registration leaves the queue sorted in that order from any
  state, and strictly so from a state whose queue is ordered and whose sequence numbers lie
  below the counter; the allocation pass keeps the queue ordered.
\<close>

theorem waiting_queue_ordered:
  "queueOrdered (waitingQueue (run evs)) \<and>
   queueSorted (waitingQueue (registerPatient a s)) \<and>
   (queueOrdered (waitingQueue s) \<and> sequencesBelowCounter s \<longrightarrow>
      queueOrdered (waitingQueue (registerPatient a s))) \<and>
   (queueOrdered (waitingQueue s) \<longrightarrow> queueOrdered (waitingQueue (tryAllocateResources s))) \<and>
   (queueSorted (waitingQueue s) \<longrightarrow> queueSorted (waitingQueue (tryAllocateResources s)))"
  using queueInvariant_run[of evs] queueInvariant_register[of s a] queueOrdered_tryAllocate[of s]
    queueSorted_register[of a s] queueSorted_tryAllocate[of s]
  by (simp add: queueInvariant_def)

theorem waiting_queue_ordered_witness:
  "queueOrdered (waitingQueue (run mixedArrivals)) \<and>
   map (patientId \<circ> patient) (waitingQueue (run mixedArrivals)) = [3, 2, 5, 1, 4] \<and>
   sequencesBelowCounter (run mixedArrivals) \<and>
   queueOrdered (waitingQueue (registerPatient seriousAttrs (run mixedArrivals))) \<and>
   queueOrdered (waitingQueue (tryAllocateResources (run mixedArrivals))) \<and>
   queueSorted (waitingQueue (run mixedArrivals)) \<and>
   queueSorted (waitingQueue (registerPatient seriousAttrs (run mixedArrivals))) \<and>
   queueSorted (waitingQueue (tryAllocateResources (run mixedArrivals)))"
proof -
  have q: "map (patientId \<circ> patient) (waitingQueue (run mixedArrivals)) = [3, 2, 5, 1, 4]"
    unfolding mixedArrivals_def by code_simp
  have c: "sequencesBelowCounter (run mixedArrivals)"
    unfolding mixedArrivals_def by code_simp
  have s: "queueSorted (waitingQueue (run mixedArrivals))"
    unfolding mixedArrivals_def by code_simp
  from waiting_queue_ordered[of mixedArrivals seriousAttrs "run mixedArrivals"] q c s
  show ?thesis by blast
qed

section \<open>Resource handles\<close>





text \<open>Records that keep their handles or give them all back stay distinct.\<close>

lemma handlesUnique_shrink:
  assumes u: "handlesUnique s"
    and sh: "\<And>i q. patientRecords t i = Some q \<Longrightarrow>
               (assignedBed q = -1 \<and> assignedVentilator q = -1) \<or>
               (\<exists>p. patientRecords s i = Some p \<and> assignedBed q = assignedBed p \<and>
                    assignedVentilator q = assignedVentilator p)"
  shows "handlesUnique t"
  unfolding handlesUnique_def
proof (intro allI impI)
  fix i j a b
  assume a: "patientRecords t i = Some a" and b: "patientRecords t j = Some b" and ij: "i \<noteq> j"
  from u have u': "\<And>i j p q. patientRecords s i = Some p \<Longrightarrow> patientRecords s j = Some q \<Longrightarrow>
      i \<noteq> j \<Longrightarrow>
        (assignedBed p \<noteq> -1 \<longrightarrow> assignedBed q \<noteq> -1 \<longrightarrow> assignedBed p \<noteq> assignedBed q) \<and>
        (assignedVentilator p \<noteq> -1 \<longrightarrow> assignedVentilator q \<noteq> -1 \<longrightarrow>
           assignedVentilator p \<noteq> assignedVentilator q)"
    unfolding handlesUnique_def by blast
  from sh[OF a] sh[OF b] u'[OF _ _ ij]
  show "(assignedBed a \<noteq> -1 \<longrightarrow> assignedBed b \<noteq> -1 \<longrightarrow> assignedBed a \<noteq> assignedBed b) \<and>
        (assignedVentilator a \<noteq> -1 \<longrightarrow> assignedVentilator b \<noteq> -1 \<longrightarrow>
           assignedVentilator a \<noteq> assignedVentilator b)"
    by (elim disjE exE conjE) simp_all
qed

lemma handlesUnique_beforePass: "handlesUnique s \<Longrightarrow> handlesUnique (beforePass s e)"
proof (erule handlesUnique_shrink, cases e)
  fix i q assume q: "patientRecords (beforePass s e) i = Some q"
  let ?goal = "(assignedBed q = -1 \<and> assignedVentilator q = -1) \<or>
               (\<exists>p. patientRecords s i = Some p \<and> assignedBed q = assignedBed p \<and>
                    assignedVentilator q = assignedVentilator p)"
  {
    fix a assume "e = Register a"
    with q show ?goal
      by (auto simp: sortWaitingQueue_def newPatient_def split: if_splits)
  next
    fix k assume "e = Discharge k"
    with q show ?goal
      by (auto simp: releaseHeld_patient split: option.splits if_splits)
  next
    fix b v d assume "e = Configure b v d"
    with q show ?goal by (simp add: configure_def)
  next
    fix k assume "e = QueuePosition k"
    with q show ?goal by (simp add: queuePosition_def Let_def sortWaitingQueue_def)
  next
    assume "e = StartWorkers"
    with q show ?goal by (simp add: startDoctorWorkers_def split: if_splits)
  next
    assume "e = StopWorkers"
    with q show ?goal by (simp add: stopDoctorWorkers_def split: if_splits)
  next
    assume "e = WorkerPickup"
    with q show ?goal
      by (auto simp: doctorPickup_def Let_def split: if_splits list.splits option.splits)
  next
    fix pid assume "e = TreatmentDone pid"
    with q show ?goal
      by (auto simp: releaseHeld_patient split: option.splits if_splits)
  }
qed






text \<open>An event whose pass admits nobody leaves the handles as they are at its start.\<close>

lemma blocked_pass_records:
  "\<not> frontAdmissible t \<Longrightarrow> patientRecords (tryAllocateResources t) = patientRecords t"
  by (simp add: tryAllocateResources_def tryAllocate_stuck blockedFront_fields)

lemma blocked_step_records:
  assumes n: "\<not> frontAdmissible (beforePass s e)"
  shows "patientRecords (step s e) = patientRecords (beforePass s e)"
proof (cases e)
  case (Register a)
  with n show ?thesis
    by (simp add: registerPatient_def Let_def blocked_pass_records)
next
  case (Discharge i)
  with n show ?thesis
    by (cases "patientRecords s i")
       (simp_all add: dischargePatient_def case_prod_beta blocked_pass_records)
next
  case (TreatmentDone pid)
  show ?thesis
  proof (cases "pid \<in> activeTreatmentTimers s")
    case False
    with TreatmentDone show ?thesis by simp
  next
    case True
    with n TreatmentDone show ?thesis
      by (cases "patientRecords s pid")
         (simp_all add: treatmentTimeout_def Let_def case_prod_beta blocked_pass_records)
  qed
qed simp_all

lemma handlesUnique_blocked_step:
  "handlesUnique s \<Longrightarrow> \<not> frontAdmissible (beforePass s e) \<Longrightarrow> handlesUnique (step s e)"
  using handlesUnique_beforePass[of s e] blocked_step_records[of s e]
  by (simp add: handlesUnique_def)
































section \<open>The prescription\<close>

lemma timeout_prescription:
  assumes r: "patientRecords s pid = Some r"
  shows "map_option prescription (patientRecords (treatmentTimeout pid s) pid) =
           Some (generatePrescription r)"
proof -
  let ?d = "r\<lparr>prescription := generatePrescription r, status := ''Discharged''\<rparr>"
  let ?t = "s\<lparr>Resources := snd (releaseHeld ?d (Resources s)),
              patientRecords := (patientRecords s)(pid \<mapsto> fst (releaseHeld ?d (Resources s)))\<rparr>"
  have "registryFrame ?t (tryAllocateResources ?t)"
    unfolding tryAllocateResources_def by (rule tryAllocateLoop_frame)
  then have "rel_option sameIdentity (patientRecords ?t pid)
               (patientRecords (tryAllocateResources ?t) pid)"
    unfolding registryFrame_def by (rule spec)
  then obtain r' where "patientRecords (tryAllocateResources ?t) pid = Some r'"
    and "sameIdentity (fst (releaseHeld ?d (Resources s))) r'"
    by (cases "patientRecords (tryAllocateResources ?t) pid") auto
  then have "map_option prescription (patientRecords (tryAllocateResources ?t) pid) =
               Some (generatePrescription r)"
    by (simp add: sameIdentity_def releaseHeld_patient)
  with r show ?thesis
    by (simp add: treatmentTimeout_def Let_def case_prod_beta)
qed

text \<open>
  C8: the prescription is the base regimen of the patient's severity tier followed by the
  ventilator suffix exactly when the patient requires a ventilator: it ends with the
  suffix if and only if the flag is set, two patients of equal severity and equal flag get
  the same prescription, and when the treatment timer of a patient fires the record of
  that patient carries this prescription.
\<close>

theorem prescription_by_severity_and_ventilator:
  "generatePrescription p =
     (if severityToString (severity p) = ''CRITICAL''
      then ''ICU Medications + Broad-Spectrum Antibiotics''
      else if severityToString (severity p) = ''SERIOUS''
      then ''Analgesics + Continuous Monitoring''
      else ''Rest + Paracetamol 500mg'') @
     (if requiresVentilator p then '' | Ventilator Support Required'' else '''') \<and>
   suffix '' | Ventilator Support Required'' (generatePrescription p) = requiresVentilator p \<and>
   (severity p = severity q \<and> requiresVentilator p = requiresVentilator q \<longrightarrow>
      generatePrescription p = generatePrescription q) \<and>
   (patientRecords s pid = Some r \<and> pid \<in> activeTreatmentTimers s \<longrightarrow>
      map_option prescription (patientRecords (step s (TreatmentDone pid)) pid) =
        Some (generatePrescription r))"
proof (intro conjI impI)
  show "generatePrescription p =
     (if severityToString (severity p) = ''CRITICAL''
      then ''ICU Medications + Broad-Spectrum Antibiotics''
      else if severityToString (severity p) = ''SERIOUS''
      then ''Analgesics + Continuous Monitoring''
      else ''Rest + Paracetamol 500mg'') @
     (if requiresVentilator p then '' | Ventilator Support Required'' else '''')"
    by (simp add: generatePrescription_def severityToString_def)
  show "suffix '' | Ventilator Support Required'' (generatePrescription p) = requiresVentilator p"
    by (simp add: generatePrescription_def Let_def suffix_to_prefix)
  show "generatePrescription p = generatePrescription q"
    if "severity p = severity q \<and> requiresVentilator p = requiresVentilator q"
    using that by (simp add: generatePrescription_def)
  show "map_option prescription (patientRecords (step s (TreatmentDone pid)) pid) =
        Some (generatePrescription r)"
    if "patientRecords s pid = Some r \<and> pid \<in> activeTreatmentTimers s"
    using that by (simp add: timeout_prescription)
qed

theorem prescription_by_severity_and_ventilator_witness:
  "\<exists>r. patientRecords inTreatment 1 = Some r \<and> severity r = 3 \<and> requiresVentilator r \<and>
      1 \<in> activeTreatmentTimers inTreatment \<and>
      map_option prescription (patientRecords (step inTreatment (TreatmentDone 1)) 1) =
        Some ''ICU Medications + Broad-Spectrum Antibiotics | Ventilator Support Required''"
proof -
  obtain r where r: "patientRecords inTreatment 1 = Some r"
  proof -
    have "patientRecords inTreatment 1 \<noteq> None" unfolding inTreatment_def by code_simp
    then show ?thesis using that by blast
  qed
  have "map_option severity (patientRecords inTreatment 1) = Some 3"
    unfolding inTreatment_def by code_simp
  with r have sv: "severity r = 3" by simp
  have "map_option requiresVentilator (patientRecords inTreatment 1) = Some True"
    unfolding inTreatment_def by code_simp
  with r have rv: "requiresVentilator r" by simp
  have t: "1 \<in> activeTreatmentTimers inTreatment" unfolding inTreatment_def by code_simp
  from prescription_by_severity_and_ventilator[of r r inTreatment 1 r] r t
  have "map_option prescription (patientRecords (step inTreatment (TreatmentDone 1)) 1) =
        Some (generatePrescription r)" by blast
  moreover from sv rv have "generatePrescription r =
      ''ICU Medications + Broad-Spectrum Antibiotics | Ventilator Support Required''"
    by (simp add: generatePrescription_def)
  ultimately show ?thesis using r sv rv t by simp
qed

section \<open>Administrative discharge\<close>

text \<open>
  C9: for an id with no record, \<^verbatim>\<open>dischargePatient\<close> returns false and leaves the whole
  state as it was; for an id with a record it returns true.
\<close>

theorem dischargePatient_unknown_id:
  "(patientRecords s i = None \<longrightarrow> dischargePatient i s = (False, s)) \<and>
   (patientRecords s i \<noteq> None \<longrightarrow> fst (dischargePatient i s) = True)"
  by (auto simp: dischargePatient_def split: option.splits prod.splits)

theorem dischargePatient_unknown_id_witness:
  "dischargePatient 7 (run [Register exampleAttrs]) = (False, run [Register exampleAttrs]) \<and>
   fst (dischargePatient 1 (run [Register exampleAttrs])) = True"
proof -
  have a: "patientRecords (run [Register exampleAttrs]) 7 = None" by code_simp
  have b: "patientRecords (run [Register exampleAttrs]) 1 \<noteq> None" by code_simp
  from a b dischargePatient_unknown_id [of "run [Register exampleAttrs]" 7]
    dischargePatient_unknown_id [of "run [Register exampleAttrs]" 1]
  show ?thesis by blast
qed

text \<open>
  C1 on the code: \<^verbatim>\<open>dischargePatient\<close> has no statement that touches the waiting queue.
  With no bed configured, patient 1 waits; its discharge returns true and sets the status
  to Discharged, and the entry of patient 1 is still in the waiting queue.
\<close>

theorem discharge_leaves_patient_queued:
  "fst (dischargePatient 1 (run [Register exampleAttrs])) \<and>
   map (patientId \<circ> patient)
     (waitingQueue (snd (dischargePatient 1 (run [Register exampleAttrs])))) = [1] \<and>
   map_option status (patientRecords (snd (dischargePatient 1 (run [Register exampleAttrs]))) 1)
     = Some ''Discharged''"
proof (intro conjI)
  show "fst (dischargePatient 1 (run [Register exampleAttrs]))"
    by code_simp
  show "map (patientId \<circ> patient)
     (waitingQueue (snd (dischargePatient 1 (run [Register exampleAttrs])))) = [1]"
    by code_simp
  show "map_option status
     (patientRecords (snd (dischargePatient 1 (run [Register exampleAttrs]))) 1)
     = Some ''Discharged''"
    by code_simp
qed

text \<open>
  C2 on the code: a discharged patient leaves neither queue. Discharged while Allocated,
  patient 1 is still in the ready queue and the next pick-up sets its status to
  In-Treatment; discharged while Waiting, it is still in the waiting queue and the next
  allocation pass that finds a bed sets its status to Allocated.
\<close>

theorem discharged_patient_status_changes:
  "map_option status (patientRecords (run [Configure 1 0 1, Register exampleAttrs, Discharge 1]) 1)
     = Some ''Discharged'' \<and>
   map_option status
     (patientRecords (run [Configure 1 0 1, Register exampleAttrs, Discharge 1, StartWorkers,
        WorkerPickup]) 1) = Some ''In-Treatment'' \<and>
   map_option status (patientRecords (run [Register exampleAttrs, Discharge 1]) 1)
     = Some ''Discharged'' \<and>
   map_option status
     (patientRecords (run [Register exampleAttrs, Discharge 1, Configure 1 0 1,
        Register exampleAttrs]) 1) = Some ''Allocated''"
  by code_simp

section \<open>The CSV line of a record\<close>

text \<open>
  C10 on the code: \<^verbatim>\<open>parseCSVLine\<close> already turns each doubled quote inside a quoted field
  into one quote, and \<^verbatim>\<open>patientFromCSVLine\<close> then applies \<^verbatim>\<open>unescapeCSV\<close> to the field
  once more. A name made of two double quote characters, which has no newline, comes back
  as one double quote character.
\<close>

theorem csv_round_trip_loses_quote:
  "parseCSVLine (patientToCSV quotedName) ! 1 = name quotedName \<and>
   unescapeCSV (name quotedName) = [dquote] \<and>
   patientFromCSVLine (patientToCSV quotedName) = Parsed (quotedName\<lparr>name := [dquote]\<rparr>) \<and>
   patientFromCSVLine (patientToCSV quotedName) \<noteq> Parsed quotedName"
proof (intro conjI)
  show "parseCSVLine (patientToCSV quotedName) ! 1 = name quotedName"
    by code_simp
  show "unescapeCSV (name quotedName) = [dquote]"
    by code_simp
  show "patientFromCSVLine (patientToCSV quotedName) = Parsed (quotedName\<lparr>name := [dquote]\<rparr>)"
    by code_simp
  show "patientFromCSVLine (patientToCSV quotedName) \<noteq> Parsed quotedName"
    by code_simp
qed

end
